theory Spec2Isabelle
  imports Complex_Main "HOL-Library.Word"
begin

unbundle bit_operations_syntax

section \<open>The DS5 device header (src/ds5.h) as a shallow embedding\<close>

text \<open>
  The header declares two frame-timestamp readers (\<open>ds5_timestamp_reader\<close> for image
  streams, \<open>ds5_hid_timestamp_reader\<close> for inertial streams), the device-identity class
  \<open>ds5_info\<close> and the device class \<open>ds5_camera\<close> with its emitter option.

  Conventions of the embedding:
  \<^item> fixed-width integers are words: \<open>uint8_t\<close> is \<open>8 word\<close>, \<open>uint32_t\<close> is \<open>32 word\<close>,
    \<open>int64_t\<close>, \<open>uint64_t\<close> and \<open>unsigned long long\<close> are \<open>64 word\<close>, and \<open>+\<close> on
    words wraps around;
  \<^item> a \<open>std::vector\<close> is a list, \<open>v[i] = x\<close> is \<open>v[i := x]\<close>;
  \<^item> a buffer reached through \<open>const void *\<close> is the list of bytes that lie behind the
    pointer; reading past its end is undefined in C++ and is the outcome
    \<open>Inl (undefined_behaviour ...)\<close> here;
  \<^item> a member function takes the object's state and returns its result together with
    the state it leaves behind; the \<open>std::lock_guard\<close> every reader operation takes makes
    the operations of one reader run one after the other, which is what the sequential
    model describes;
  \<^item> a thrown exception is \<open>Inl\<close> of the exception;
  \<^item> a \<open>float\<close> or \<open>double\<close> is the real number it denotes;
  \<^item> a member the source names with a leading underscore, such as \<open>_depth\<close>, has the
    name without it.
\<close>

subsection \<open>Outcomes\<close>

datatype error =
    not_implemented_exception string
  | invalid_value_exception string
  | undefined_behaviour string

subsection \<open>Stream requests\<close>

text \<open>
  \<open>request_mapping\<close>, \<open>stream_profile\<close> and \<open>native_pixel_format\<close> are declared in headers
  the file includes. The readers use \<open>mode.profile.width\<close>, \<open>mode.profile.height\<close>
  (unsigned 32-bit), \<open>mode.pf->fourcc\<close> (unsigned 32-bit) and the member function
  \<open>mode.pf->get_image_size(width, height)\<close>, whose body is not part of this file: it is
  the field \<open>get_image_size\<close> of the pixel format, a parameter of the model, returning a
  byte count (\<open>size_t\<close>).
\<close>

record stream_profile =
  width :: "32 word"
  height :: "32 word"

record native_pixel_format =
  fourcc :: "32 word"
  get_image_size :: "32 word \<Rightarrow> 32 word \<Rightarrow> nat"

record request_mapping =
  profile :: stream_profile
  pf :: native_pixel_format

type_synonym frame = "8 word list"

text \<open>An instance of \<open>get_image_size\<close>: a format that takes one byte for each element.\<close>

definition one_byte_per_element :: "32 word \<Rightarrow> 32 word \<Rightarrow> nat" where
  "one_byte_per_element w h = unat w * unat h"

subsection \<open>Channel state of a timestamp reader\<close>

text \<open>
  Both reader classes declare the same four vectors, \<open>started\<close>, \<open>total\<close>,
  \<open>last_timestamp\<close> and \<open>counter\<close>, and size them to \<open>pins = 2\<close> (image reader) or
  \<open>sensors = 2\<close> (inertial reader) in the constructor.
\<close>

record reader_state =
  started :: "bool list"
  total :: "64 word list"
  last_timestamp :: "32 word list"
  counter :: "64 word list"

definition pins :: nat where
  "pins = 2"

definition sensors :: nat where
  "sensors = 2"

text \<open>One pass of the body of the \<open>for\<close> loop of \<open>reset\<close>.\<close>

definition reset_slot :: "nat \<Rightarrow> reader_state \<Rightarrow> reader_state" where
  "reset_slot i s =
     s\<lparr>started := (started s)[i := False],
       total := (total s)[i := 0],
       last_timestamp := (last_timestamp s)[i := 0],
       counter := (counter s)[i := 0]\<rparr>"

subsection \<open>\<open>ds5_timestamp_reader\<close>\<close>

definition ds5_timestamp_reader_reset :: "reader_state \<Rightarrow> reader_state" where
  "ds5_timestamp_reader_reset s = fold reset_slot [0 ..< pins] s"

text \<open>The constructor: four vectors of \<open>pins\<close> value-initialised elements, then \<open>reset()\<close>.\<close>

definition ds5_timestamp_reader :: reader_state where
  "ds5_timestamp_reader =
     ds5_timestamp_reader_reset
       \<lparr>started = replicate pins False, total = replicate pins 0,
        last_timestamp = replicate pins 0, counter = replicate pins 0\<rparr>"

text \<open>
  The scan of \<open>validate_frame\<close>: \<open>it\<close> walks from \<open>frame\<close> to \<open>end = frame + size\<close>. The
  first argument is \<open>end - it\<close>, the second the bytes from \<open>it\<close> on.
\<close>

fun scan_nonzero :: "nat \<Rightarrow> frame \<Rightarrow> error + bool" where
  "scan_nonzero 0 bs = Inr False"
| "scan_nonzero (Suc k) [] = Inl (undefined_behaviour ''read past the end of the frame'')"
| "scan_nonzero (Suc k) (b # bs) = (if b \<noteq> 0 then Inr True else scan_nonzero k bs)"

definition ds5_timestamp_reader_validate_frame ::
  "reader_state \<Rightarrow> request_mapping \<Rightarrow> frame \<Rightarrow> (error + bool) \<times> reader_state" where
  "ds5_timestamp_reader_validate_frame s mode fr =
     (scan_nonzero
        (get_image_size (pf mode) (width (profile mode)) (height (profile mode))) fr, s)"

definition ds5_timestamp_reader_get_frame_timestamp ::
  "reader_state \<Rightarrow> request_mapping \<Rightarrow> frame \<Rightarrow> real \<times> reader_state" where
  "ds5_timestamp_reader_get_frame_timestamp s mode fr = (0, s)"

text \<open>\<open>0x5a313620\<close> is the four-character code \<open>Z16\<close>.\<close>

definition pin_index_of :: "request_mapping \<Rightarrow> nat" where
  "pin_index_of mode = (if fourcc (pf mode) = 0x5a313620 then 1 else 0)"

text \<open>
  \<open>return ++counter[pin_index]\<close>: the element is incremented and the new value is
  returned, converted from \<open>int64_t\<close> to \<open>unsigned long long\<close> (the same 64 bits).
\<close>

definition increment_counter :: "nat \<Rightarrow> reader_state \<Rightarrow> 64 word \<times> reader_state" where
  "increment_counter i s =
     (let c = counter s ! i + 1 in (c, s\<lparr>counter := (counter s)[i := c]\<rparr>))"

definition ds5_timestamp_reader_get_frame_counter ::
  "reader_state \<Rightarrow> request_mapping \<Rightarrow> 64 word \<times> reader_state" where
  "ds5_timestamp_reader_get_frame_counter s mode = increment_counter (pin_index_of mode) s"

subsection \<open>\<open>ds5_hid_timestamp_reader\<close>\<close>

definition ds5_hid_timestamp_reader_reset :: "reader_state \<Rightarrow> reader_state" where
  "ds5_hid_timestamp_reader_reset s = fold reset_slot [0 ..< sensors] s"

text \<open>The constructor: the four empty vectors are resized to \<open>sensors\<close>, then \<open>reset()\<close>.\<close>

definition ds5_hid_timestamp_reader :: reader_state where
  "ds5_hid_timestamp_reader =
     ds5_hid_timestamp_reader_reset
       \<lparr>started = replicate sensors False, total = replicate sensors 0,
        last_timestamp = replicate sensors 0, counter = replicate sensors 0\<rparr>"

definition ds5_hid_timestamp_reader_validate_frame ::
  "reader_state \<Rightarrow> request_mapping \<Rightarrow> frame \<Rightarrow> (error + bool) \<times> reader_state" where
  "ds5_hid_timestamp_reader_validate_frame s mode fr =
     (scan_nonzero
        (get_image_size (pf mode) (width (profile mode)) (height (profile mode))) fr, s)"

text \<open>
  The multi-character literal \<open>'GYRO'\<close> is an \<open>int\<close> whose value the compiler chooses; GCC,
  Clang and MSVC all give \<open>0x4759524F\<close>.
\<close>

definition GYRO :: "32 word" where
  "GYRO = 0x4759524F"

definition sensor_index_of :: "request_mapping \<Rightarrow> nat" where
  "sensor_index_of mode = (if fourcc (pf mode) = GYRO then 1 else 0)"

definition ds5_hid_timestamp_reader_get_frame_counter ::
  "reader_state \<Rightarrow> request_mapping \<Rightarrow> 64 word \<times> reader_state" where
  "ds5_hid_timestamp_reader_get_frame_counter s mode = increment_counter (sensor_index_of mode) s"

subsection \<open>Successive counter calls\<close>

text \<open>
  \<open>frame_counters get s modes\<close> calls the counter operation \<open>get\<close> once for each request
  of \<open>modes\<close>, in order, on a reader that starts in state \<open>s\<close>; it gives the returned
  values in call order and the final state.
\<close>

fun frame_counters ::
  "(reader_state \<Rightarrow> request_mapping \<Rightarrow> 64 word \<times> reader_state) \<Rightarrow>
   reader_state \<Rightarrow> request_mapping list \<Rightarrow> 64 word list \<times> reader_state" where
  "frame_counters get s [] = ([], s)"
| "frame_counters get s (m # ms) =
     (let (r, s') = get s m; (rs, s'') = frame_counters get s' ms in (r # rs, s''))"

text \<open>
  The values returned to the calls that select channel \<open>c\<close>: the calls are paired with
  their results and those of the other channel are dropped.
\<close>

definition returned_on ::
  "(request_mapping \<Rightarrow> nat) \<Rightarrow> nat \<Rightarrow> request_mapping list \<Rightarrow> 64 word list \<Rightarrow> 64 word list" where
  "returned_on sel c modes rs = map snd (filter (\<lambda>(m, r). sel m = c) (zip modes rs))"

definition calls_on :: "(request_mapping \<Rightarrow> nat) \<Rightarrow> nat \<Rightarrow> request_mapping list \<Rightarrow> nat" where
  "calls_on sel c modes = length (filter (\<lambda>m. sel m = c) modes)"

text \<open>Every vector of the reader holds two elements: what the constructors establish.\<close>

definition sized :: "reader_state \<Rightarrow> bool" where
  "sized s \<longleftrightarrow>
     length (started s) = 2 \<and> length (total s) = 2 \<and>
     length (last_timestamp s) = 2 \<and> length (counter s) = 2"

subsection \<open>The timestamp of the inertial reader\<close>

text \<open>
  \<open>*((uint64_t*)((const uint8_t*)frame + timestamp_offset))\<close> reads the eight bytes at
  offsets \<open>off\<close> to \<open>off + 7\<close> as one unsigned 64-bit value in the byte order of the host,
  which is little-endian on the platforms the library builds for: the byte at the lowest
  offset is the least significant. The read needs all eight bytes to lie in the frame.
\<close>

definition read_uint64 :: "frame \<Rightarrow> nat \<Rightarrow> error + 64 word" where
  "read_uint64 fr off =
     (if off + 8 \<le> length fr
      then Inr (foldr (\<lambda>b acc. ucast b OR push_bit 8 acc) (take 8 (drop off fr)) 0)
      else Inl (undefined_behaviour ''read past the end of the frame''))"

text \<open>
  The number a list of bytes denotes when the first byte is the least significant, and
  the number denoted by the eight bytes of a frame at offsets \<open>off\<close> to \<open>off + 7\<close>.
\<close>

fun bytes_value :: "8 word list \<Rightarrow> nat" where
  "bytes_value [] = 0"
| "bytes_value (b # bs) = unat b + bytes_value bs * 256"

definition little_endian_at :: "frame \<Rightarrow> nat \<Rightarrow> nat" where
  "little_endian_at fr off = (\<Sum>i<8. unat (fr ! (off + i)) * 256 ^ i)"

text \<open>
  \<open>static_cast<double>\<close> of an unsigned 64-bit value: a \<open>double\<close> has a 53-bit significand,
  so a value below \<open>2 ^ 53\<close> is kept, and a larger one is rounded to the nearest multiple
  of \<open>2 ^ e\<close>, where \<open>e\<close> is the number of bits beyond 53, a tie going to the even
  significand (IEEE 754 round-to-nearest-even, the default rounding mode).
\<close>

fun bit_length :: "nat \<Rightarrow> nat" where
  "bit_length n = (if n = 0 then 0 else Suc (bit_length (n div 2)))"

declare bit_length.simps [simp del]

definition round_to_double :: "nat \<Rightarrow> nat" where
  "round_to_double n =
     (if n < 2 ^ 53 then n
      else let e = bit_length n - 53; q = n div 2 ^ e; r = n mod 2 ^ e; h = 2 ^ (e - 1)
           in (if h < r \<or> (r = h \<and> odd q) then q + 1 else q) * 2 ^ e)"

definition static_cast_double :: "64 word \<Rightarrow> real" where
  "static_cast_double u = real (round_to_double (unat u))"

definition hid_data_size :: "32 word" where
  "hid_data_size = 14"

definition timestamp_offset :: nat where
  "timestamp_offset = 6"

definition ds5_hid_timestamp_reader_get_frame_timestamp ::
  "reader_state \<Rightarrow> request_mapping \<Rightarrow> frame \<Rightarrow> (error + real) \<times> reader_state" where
  "ds5_hid_timestamp_reader_get_frame_timestamp s mode fr =
     (let frame_size = width (profile mode) * height (profile mode)
      in if frame_size = hid_data_size
         then (case read_uint64 fr timestamp_offset of
                 Inl e \<Rightarrow> (Inl e, s)
               | Inr u \<Rightarrow> (Inr (static_cast_double u), s))
         else (Inr 0, s))"

subsection \<open>\<open>ds5_info\<close>\<close>

text \<open>
  \<open>uvc_device_info\<close> is declared in the backend header; of its fields the code reads
  \<open>pid\<close>, an unsigned integer; the model is generic in its width. The five model identifiers
  of namespace \<open>ds\<close> are declared in ds5-private.h and are parameters of the model.
\<close>

record 'p uvc_device_info =
  pid :: 'p

record 'p ds_pids =
  RS400P_PID :: 'p
  RS410A_PID :: 'p
  RS420R_PID :: 'p
  RS430C_PID :: 'p
  RS450T_PID :: 'p

record 'p ds5_info =
  depth :: "'p uvc_device_info list"

text \<open>\<open>to_string() << n\<close> for an unsigned integer: its decimal digits.\<close>

fun decimal :: "nat \<Rightarrow> string" where
  "decimal n =
     (if n < 10 then [''0123456789'' ! n]
      else decimal (n div 10) @ [''0123456789'' ! (n mod 10)])"

declare decimal.simps [simp del]

text \<open>
  \<open>_depth.front()\<close> on an empty vector is undefined. The \<open>case\<close> labels of a \<open>switch\<close> are
  tried as the \<open>if\<close> chain below; C++ requires them to be distinct.
\<close>

definition get_subdevice_count ::
  "('a :: len) word ds_pids \<Rightarrow> 'a word ds5_info \<Rightarrow> error + 8 word" where
  "get_subdevice_count ds info =
     (case depth info of
        [] \<Rightarrow> Inl (undefined_behaviour ''front() of an empty vector'')
      | d # rest \<Rightarrow>
          (let depth_pid = pid d
           in if depth_pid = RS400P_PID ds \<or> depth_pid = RS410A_PID ds \<or>
                 depth_pid = RS420R_PID ds \<or> depth_pid = RS430C_PID ds then Inr 1
              else if depth_pid = RS450T_PID ds then Inr 3
              else Inl (not_implemented_exception
                     (''get_subdevice_count is not implemented for DS5 device of type '' @
                      decimal (unat depth_pid)))))"

subsection \<open>\<open>ds5_camera::emitter_option\<close>\<close>

text \<open>
  \<open>static_cast<int>(val)\<close> discards the fractional part of \<open>val\<close>; it is undefined when the
  truncated value does not fit a 32-bit \<open>int\<close>. A NaN or an infinity, for which the
  conversion is undefined as well, is not a real number and has no counterpart here.
\<close>

definition static_cast_int :: "real \<Rightarrow> error + int" where
  "static_cast_int v =
     (if - (2 ^ 31) - 1 < v \<and> v < 2 ^ 31
      then Inr (if 0 \<le> v then \<lfloor>v\<rfloor> else \<lceil>v\<rceil>)
      else Inl (undefined_behaviour ''float out of the range of int''))"

definition get_value_description :: "real \<Rightarrow> error + string" where
  "get_value_description val =
     (case static_cast_int val of
        Inl e \<Rightarrow> Inl e
      | Inr n \<Rightarrow>
          if n = 0 then Inr ''Off''
          else if n = 1 then Inr ''On''
          else if n = 2 then Inr ''Auto''
          else Inl (invalid_value_exception ''value not found''))"

subsection \<open>\<open>ds5_camera\<close>: the raw calibration table\<close>

text \<open>
  The header declares the cache slot \<open>lazy<std::vector<uint8_t>> _coefficients_table_raw\<close>,
  the pointer \<open>_hw_monitor\<close> and the member function \<open>get_raw_calibration_table\<close>; the body
  of the function and the class \<open>lazy\<close> are defined elsewhere.

  The hardware monitor is the list of the requests sent so far; what the device answers
  is the parameter \<open>reply\<close>, given the earlier requests and the table asked for. A
  transport failure is an exception the external transport throws.
\<close>

datatype 'e transport_result = transport_failure 'e | response "8 word list"

record 't hw_monitor =
  sent :: "'t list"

record 't ds5_camera =
  hw_monitor :: "'t hw_monitor"
  coefficients_table_raw :: "8 word list option"

text \<open>
  Modelled from the spec: the body of \<open>get_raw_calibration_table\<close> and the class \<open>lazy\<close>
  are missing. The first call issues one request for \<open>table_id\<close> over the hardware
  monitor; the bytes received are cached for the lifetime of the device; every later
  call, for any table, returns the cached bytes without a request; a failure of the
  transport goes to the caller and leaves the cache empty, so that the next call asks
  again.
\<close>

definition get_raw_calibration_table ::
  "('t list \<Rightarrow> 't \<Rightarrow> 'e transport_result) \<Rightarrow> 't ds5_camera \<Rightarrow> 't \<Rightarrow>
   'e transport_result \<times> 't ds5_camera" where
  "get_raw_calibration_table reply cam table_id =
     (case coefficients_table_raw cam of
        Some bytes \<Rightarrow> (response bytes, cam)
      | None \<Rightarrow>
          (let hw = hw_monitor cam;
               answer = reply (sent hw) table_id;
               cam' = cam\<lparr>hw_monitor := hw\<lparr>sent := sent hw @ [table_id]\<rparr>\<rparr>
           in case answer of
                transport_failure e \<Rightarrow> (transport_failure e, cam')
              | response bytes \<Rightarrow> (response bytes, cam'\<lparr>coefficients_table_raw := Some bytes\<rparr>)))"

text \<open>
  Modelled from the spec: the constructor of \<open>ds5_camera\<close> is missing. A new device
  object has sent nothing and cached nothing.
\<close>

definition new_ds5_camera :: "'t ds5_camera" where
  "new_ds5_camera = \<lparr>hw_monitor = \<lparr>sent = []\<rparr>, coefficients_table_raw = None\<rparr>"

subsection \<open>Histories of a reader\<close>

text \<open>
  The four operations a caller can invoke on a reader, and the state a reader is in
  after a sequence of such calls on a newly constructed object.
\<close>

datatype reader_call =
    Reset
  | Validate_frame request_mapping frame
  | Get_frame_timestamp request_mapping frame
  | Get_frame_counter request_mapping

fun ds5_timestamp_reader_call :: "reader_call \<Rightarrow> reader_state \<Rightarrow> reader_state" where
  "ds5_timestamp_reader_call Reset s = ds5_timestamp_reader_reset s"
| "ds5_timestamp_reader_call (Validate_frame mode fr) s =
     snd (ds5_timestamp_reader_validate_frame s mode fr)"
| "ds5_timestamp_reader_call (Get_frame_timestamp mode fr) s =
     snd (ds5_timestamp_reader_get_frame_timestamp s mode fr)"
| "ds5_timestamp_reader_call (Get_frame_counter mode) s =
     snd (ds5_timestamp_reader_get_frame_counter s mode)"

fun ds5_hid_timestamp_reader_call :: "reader_call \<Rightarrow> reader_state \<Rightarrow> reader_state" where
  "ds5_hid_timestamp_reader_call Reset s = ds5_hid_timestamp_reader_reset s"
| "ds5_hid_timestamp_reader_call (Validate_frame mode fr) s =
     snd (ds5_hid_timestamp_reader_validate_frame s mode fr)"
| "ds5_hid_timestamp_reader_call (Get_frame_timestamp mode fr) s =
     snd (ds5_hid_timestamp_reader_get_frame_timestamp s mode fr)"
| "ds5_hid_timestamp_reader_call (Get_frame_counter mode) s =
     snd (ds5_hid_timestamp_reader_get_frame_counter s mode)"

definition ds5_timestamp_reader_after :: "reader_call list \<Rightarrow> reader_state" where
  "ds5_timestamp_reader_after calls = fold ds5_timestamp_reader_call calls ds5_timestamp_reader"

definition ds5_hid_timestamp_reader_after :: "reader_call list \<Rightarrow> reader_state" where
  "ds5_hid_timestamp_reader_after calls =
     fold ds5_hid_timestamp_reader_call calls ds5_hid_timestamp_reader"

text \<open>The state in which every channel is at its initial value.\<close>

definition all_channels_zero :: reader_state where
  "all_channels_zero =
     \<lparr>started = [False, False], total = [0, 0], last_timestamp = [0, 0], counter = [0, 0]\<rparr>"

section \<open>Properties\<close>

subsection \<open>Auxiliary facts about the channel state\<close>

lemma sized_reset_slot: "sized s \<Longrightarrow> sized (reset_slot i s)"
  by (simp add: sized_def reset_slot_def)

lemma upt_two: "[0 ..< 2] = [0, Suc 0]"
  by (simp add: upt_rec)

lemma update_both:
  assumes "length xs = 2"
  shows "xs[0 := a, Suc 0 := b] = [a, b]"
proof -
  from assms obtain x y where "xs = [x, y]"
    by (cases xs; cases "tl xs"; auto)
  then show ?thesis by simp
qed

lemma reset_sized:
  assumes "sized s"
  shows "fold reset_slot [0 ..< 2] s =
     \<lparr>started = [False, False], total = [0, 0], last_timestamp = [0, 0], counter = [0, 0]\<rparr>"
  using assms by (cases s) (simp add: upt_two reset_slot_def sized_def update_both)

lemma sized_increment: "sized s \<Longrightarrow> sized (snd (increment_counter i s))"
  by (simp add: sized_def increment_counter_def Let_def)

lemma frame_counters_Cons:
  "frame_counters get s (m # ms) =
     (fst (get s m) # fst (frame_counters get (snd (get s m)) ms),
      snd (frame_counters get (snd (get s m)) ms))"
  by (simp split: prod.splits)

lemma frame_counters_length: "length (fst (frame_counters get s ms)) = length ms"
  by (induction ms arbitrary: s) (simp_all add: frame_counters_Cons del: frame_counters.simps(2))

lemma counter_after_increment:
  assumes "sized s" and "i < 2" and "c < 2"
  shows "counter (snd (increment_counter i s)) ! c =
           (if i = c then counter s ! c + 1 else counter s ! c)"
  using assms by (simp add: increment_counter_def Let_def sized_def)

lemma upt_from_one: "[Suc 0 ..< Suc (Suc n)] = Suc 0 # map Suc [Suc 0 ..< Suc n]"
  by (simp add: upt_conv_Cons map_Suc_upt del: upt_Suc)

lemma returned_on_increment:
  assumes "sized s" and "\<And>m. sel m < 2" and "c < 2"
  shows "returned_on sel c ms (fst (frame_counters (\<lambda>s m. increment_counter (sel m) s) s ms)) =
     map (\<lambda>k. counter s ! c + of_nat k) [1 ..< Suc (calls_on sel c ms)]"
  using assms(1)
proof (induction ms arbitrary: s)
  case Nil
  show ?case by (simp add: returned_on_def calls_on_def)
next
  case (Cons m ms)
  let ?s' = "snd (increment_counter (sel m) s)"
  have sz: "sized ?s'" using Cons.prems by (rule sized_increment)
  have ih: "returned_on sel c ms (fst (frame_counters (\<lambda>s m. increment_counter (sel m) s) ?s' ms)) =
     map (\<lambda>k. counter ?s' ! c + of_nat k) [1 ..< Suc (calls_on sel c ms)]"
    using Cons.IH [OF sz] .
  have cnt: "counter ?s' ! c = (if sel m = c then counter s ! c + 1 else counter s ! c)"
    using Cons.prems assms(2) assms(3) by (rule counter_after_increment)
  have r: "fst (increment_counter (sel m) s) = counter s ! sel m + 1"
    by (simp add: increment_counter_def Let_def)
  show ?case
  proof (cases "sel m = c")
    case True
    have "returned_on sel c (m # ms) (fst (frame_counters (\<lambda>s m. increment_counter (sel m) s) s (m # ms)))
        = (counter s ! c + 1) # map (\<lambda>k. counter s ! c + 1 + of_nat k) [1 ..< Suc (calls_on sel c ms)]"
      using True ih cnt r by (simp add: returned_on_def frame_counters_Cons del: frame_counters.simps(2) upt_Suc)
    also have "\<dots> = map (\<lambda>k. counter s ! c + of_nat k) [1 ..< Suc (Suc (calls_on sel c ms))]"
      by (simp add: upt_from_one comp_def ac_simps del: upt_Suc)
    finally show ?thesis using True by (simp add: calls_on_def)
  next
    case False
    then show ?thesis using ih cnt
      by (simp add: returned_on_def calls_on_def frame_counters_Cons del: frame_counters.simps(2) upt_Suc)
  qed
qed


lemma returned_on_other:
  assumes "\<And>m. sel m < 2" and "\<not> c < (2::nat)"
  shows "returned_on sel c ms rs = []" and "calls_on sel c ms = 0"
proof -
  have "\<And>m. sel m \<noteq> c" using assms by (metis)
  then show "returned_on sel c ms rs = []" and "calls_on sel c ms = 0"
    by (simp_all add: returned_on_def calls_on_def)
qed

lemma unat_counts:
  assumes "n < 2 ^ 63"
  shows "map unat (map (\<lambda>k. (of_nat k :: 64 word)) [1 ..< Suc n]) = [1 ..< Suc n]"
proof -
  have "unat (of_nat k :: 64 word) = k" if "k \<in> set [1 ..< Suc n]" for k
  proof -
    from that have "k \<le> n" by auto
    with assms have "k < 2 ^ 63" by simp
    also have "(2::nat) ^ 63 < 2 ^ 64" by simp
    finally show ?thesis by (simp add: unat_of_nat)
  qed
  then have "map (\<lambda>k. unat (of_nat k :: 64 word)) [1 ..< Suc n] = map (\<lambda>k. k) [1 ..< Suc n]"
    by (intro map_cong) simp_all
  then show ?thesis by (simp add: comp_def)
qed

lemma ds5_timestamp_reader_value:
  "ds5_timestamp_reader =
     \<lparr>started = [False, False], total = [0, 0], last_timestamp = [0, 0], counter = [0, 0]\<rparr>"
  by (simp add: ds5_timestamp_reader_def ds5_timestamp_reader_reset_def pins_def
      reset_sized sized_def)

lemma ds5_hid_timestamp_reader_value:
  "ds5_hid_timestamp_reader =
     \<lparr>started = [False, False], total = [0, 0], last_timestamp = [0, 0], counter = [0, 0]\<rparr>"
  by (simp add: ds5_hid_timestamp_reader_def ds5_hid_timestamp_reader_reset_def sensors_def
      reset_sized sized_def)

lemma counters_from_zero:
  assumes "\<And>m. sel m < 2"
  shows "returned_on sel c ms
           (fst (frame_counters (\<lambda>s m. increment_counter (sel m) s)
              \<lparr>started = [False, False], total = [0, 0], last_timestamp = [0, 0], counter = [0, 0]\<rparr> ms)) =
         map of_nat [1 ..< Suc (calls_on sel c ms)]"
proof (cases "c < 2")
  case True
  have z: "[0, 0 :: 64 word] ! c = 0"
    using True by (cases c) simp_all
  show ?thesis
    using returned_on_increment [of _ sel c ms, OF _ assms True] z
    by (simp add: sized_def)
next
  case False
  show ?thesis using returned_on_other [OF assms False] by simp
qed

subsection \<open>Frame counters\<close>

text \<open>
  C1. On a newly constructed reader, image or inertial, the values returned to the
  successive \<open>get_frame_counter\<close> calls that select a channel \<open>c\<close> are 1, 2, 3, ... up to
  the number of such calls, in call order, whatever calls for the other channel lie in
  between. The returned values are 64-bit: as words they are the words of 1, 2, 3, ...
  for every sequence of calls, and as numbers they are 1, 2, 3, ... as long as the
  channel is selected fewer than \<open>2 ^ 63\<close> times, the range in which incrementing the
  \<open>int64_t\<close> counter does not overflow.
\<close>

theorem get_frame_counter_counts_from_one:
  "returned_on pin_index_of c ms
     (fst (frame_counters ds5_timestamp_reader_get_frame_counter ds5_timestamp_reader ms)) =
     map of_nat [1 ..< Suc (calls_on pin_index_of c ms)] \<and>
   (calls_on pin_index_of c ms < 2 ^ 63 \<longrightarrow>
      map unat (returned_on pin_index_of c ms
        (fst (frame_counters ds5_timestamp_reader_get_frame_counter ds5_timestamp_reader ms))) =
      [1 ..< Suc (calls_on pin_index_of c ms)]) \<and>
   returned_on sensor_index_of c ms
     (fst (frame_counters ds5_hid_timestamp_reader_get_frame_counter ds5_hid_timestamp_reader ms)) =
     map of_nat [1 ..< Suc (calls_on sensor_index_of c ms)] \<and>
   (calls_on sensor_index_of c ms < 2 ^ 63 \<longrightarrow>
      map unat (returned_on sensor_index_of c ms
        (fst (frame_counters ds5_hid_timestamp_reader_get_frame_counter ds5_hid_timestamp_reader ms))) =
      [1 ..< Suc (calls_on sensor_index_of c ms)])"
proof -
  have p: "\<And>m. pin_index_of m < 2" by (simp add: pin_index_of_def)
  have q: "\<And>m. sensor_index_of m < 2" by (simp add: sensor_index_of_def)
  have g: "ds5_timestamp_reader_get_frame_counter = (\<lambda>s m. increment_counter (pin_index_of m) s)"
    by (intro ext) (simp add: ds5_timestamp_reader_get_frame_counter_def)
  have h: "ds5_hid_timestamp_reader_get_frame_counter = (\<lambda>s m. increment_counter (sensor_index_of m) s)"
    by (intro ext) (simp add: ds5_hid_timestamp_reader_get_frame_counter_def)
  have a: "returned_on pin_index_of c ms
     (fst (frame_counters ds5_timestamp_reader_get_frame_counter ds5_timestamp_reader ms)) =
     map of_nat [1 ..< Suc (calls_on pin_index_of c ms)]"
    unfolding g ds5_timestamp_reader_value by (rule counters_from_zero [OF p])
  have b: "returned_on sensor_index_of c ms
     (fst (frame_counters ds5_hid_timestamp_reader_get_frame_counter ds5_hid_timestamp_reader ms)) =
     map of_nat [1 ..< Suc (calls_on sensor_index_of c ms)]"
    unfolding h ds5_hid_timestamp_reader_value by (rule counters_from_zero [OF q])
  show ?thesis
    unfolding a b using unat_counts by blast
qed

theorem get_frame_counter_counts_from_one_witness:
  "calls_on pin_index_of 1
     [\<lparr>profile = \<lparr>width = 640, height = 480\<rparr>, pf = \<lparr>fourcc = 0x5a313620, get_image_size = one_byte_per_element\<rparr>\<rparr>,
      \<lparr>profile = \<lparr>width = 640, height = 480\<rparr>, pf = \<lparr>fourcc = 0x59385220, get_image_size = one_byte_per_element\<rparr>\<rparr>,
      \<lparr>profile = \<lparr>width = 640, height = 480\<rparr>, pf = \<lparr>fourcc = 0x5a313620, get_image_size = one_byte_per_element\<rparr>\<rparr>]
     < 2 ^ 63 \<and>
   map unat (returned_on pin_index_of 1
     [\<lparr>profile = \<lparr>width = 640, height = 480\<rparr>, pf = \<lparr>fourcc = 0x5a313620, get_image_size = one_byte_per_element\<rparr>\<rparr>,
      \<lparr>profile = \<lparr>width = 640, height = 480\<rparr>, pf = \<lparr>fourcc = 0x59385220, get_image_size = one_byte_per_element\<rparr>\<rparr>,
      \<lparr>profile = \<lparr>width = 640, height = 480\<rparr>, pf = \<lparr>fourcc = 0x5a313620, get_image_size = one_byte_per_element\<rparr>\<rparr>]
     (fst (frame_counters ds5_timestamp_reader_get_frame_counter ds5_timestamp_reader
     [\<lparr>profile = \<lparr>width = 640, height = 480\<rparr>, pf = \<lparr>fourcc = 0x5a313620, get_image_size = one_byte_per_element\<rparr>\<rparr>,
      \<lparr>profile = \<lparr>width = 640, height = 480\<rparr>, pf = \<lparr>fourcc = 0x59385220, get_image_size = one_byte_per_element\<rparr>\<rparr>,
      \<lparr>profile = \<lparr>width = 640, height = 480\<rparr>, pf = \<lparr>fourcc = 0x5a313620, get_image_size = one_byte_per_element\<rparr>\<rparr>]))) =
   [1, 2]"
  using get_frame_counter_counts_from_one [of 1
     "[\<lparr>profile = \<lparr>width = 640, height = 480\<rparr>, pf = \<lparr>fourcc = 0x5a313620, get_image_size = one_byte_per_element\<rparr>\<rparr>,
      \<lparr>profile = \<lparr>width = 640, height = 480\<rparr>, pf = \<lparr>fourcc = 0x59385220, get_image_size = one_byte_per_element\<rparr>\<rparr>,
      \<lparr>profile = \<lparr>width = 640, height = 480\<rparr>, pf = \<lparr>fourcc = 0x5a313620, get_image_size = one_byte_per_element\<rparr>\<rparr>]"]
  by (simp add: calls_on_def pin_index_of_def)


subsection \<open>Frame validation\<close>

lemma scan_nonzero_in_range:
  "n \<le> length bs \<Longrightarrow> scan_nonzero n bs = Inr (\<exists>i<n. bs ! i \<noteq> 0)"
proof (induction n bs rule: scan_nonzero.induct)
  case (1 bs)
  show ?case by simp
next
  case (2 k)
  then show ?case by simp
next
  case (3 k b bs)
  show ?case
  proof (cases "b = 0")
    case True
    have "(\<exists>i<Suc k. (b # bs) ! i \<noteq> 0) \<longleftrightarrow> (\<exists>i<k. bs ! i \<noteq> 0)"
      using True by (auto simp: less_Suc_eq_0_disj)
    with 3 True show ?thesis by simp
  next
    case False
    then have "\<exists>i<Suc k. (b # bs) ! i \<noteq> 0" by (intro exI [of _ 0]) simp
    with False show ?thesis by simp
  qed
qed

text \<open>
  C4. For every format descriptor and every buffer that holds at least
  \<open>get_image_size(width, height)\<close> bytes, \<open>validate_frame\<close> of either reader returns true
  if and only if one of the first \<open>get_image_size(width, height)\<close> bytes is not zero: false
  when they are all zero, false when that byte count is zero. The reader's channel
  state is left as it was.
\<close>

theorem validate_frame_iff_nonzero_byte:
  assumes "get_image_size (pf mode) (width (profile mode)) (height (profile mode)) \<le> length fr"
  shows "ds5_timestamp_reader_validate_frame s mode fr =
           (Inr (\<exists>i < get_image_size (pf mode) (width (profile mode)) (height (profile mode)).
                   fr ! i \<noteq> 0), s) \<and>
         ds5_hid_timestamp_reader_validate_frame s mode fr =
           (Inr (\<exists>i < get_image_size (pf mode) (width (profile mode)) (height (profile mode)).
                   fr ! i \<noteq> 0), s)"
  using assms
  by (simp add: ds5_timestamp_reader_validate_frame_def ds5_hid_timestamp_reader_validate_frame_def
      scan_nonzero_in_range)

theorem validate_frame_iff_nonzero_byte_witness:
  "ds5_timestamp_reader_validate_frame all_channels_zero
     \<lparr>profile = \<lparr>width = 2, height = 2\<rparr>,
      pf = \<lparr>fourcc = 0x5a313620, get_image_size = one_byte_per_element\<rparr>\<rparr> [0, 0, 7, 0] =
     (Inr True, all_channels_zero) \<and>
   ds5_hid_timestamp_reader_validate_frame all_channels_zero
     \<lparr>profile = \<lparr>width = 2, height = 2\<rparr>,
      pf = \<lparr>fourcc = 0x5a313620, get_image_size = one_byte_per_element\<rparr>\<rparr> [0, 0, 0, 0, 9] =
     (Inr False, all_channels_zero) \<and>
   ds5_timestamp_reader_validate_frame all_channels_zero
     \<lparr>profile = \<lparr>width = 0, height = 2\<rparr>,
      pf = \<lparr>fourcc = 0x5a313620, get_image_size = one_byte_per_element\<rparr>\<rparr> [1, 1] =
     (Inr False, all_channels_zero)"
proof -
  let ?m = "\<lparr>profile = \<lparr>width = 2, height = 2\<rparr>,
      pf = \<lparr>fourcc = 0x5a313620, get_image_size = one_byte_per_element\<rparr>\<rparr>"
  let ?z = "\<lparr>profile = \<lparr>width = 0, height = 2\<rparr>,
      pf = \<lparr>fourcc = 0x5a313620, get_image_size = one_byte_per_element\<rparr>\<rparr>"
  have four: "(4::nat) = Suc (Suc (Suc (Suc 0)))"
    by simp
  have a: "(\<exists>i<4. [0, 0, 7, 0 :: 8 word] ! i \<noteq> 0) = True"
    unfolding four by (simp add: Ex_less_Suc)
  have b: "(\<exists>i<4. [0, 0, 0, 0, 9 :: 8 word] ! i \<noteq> 0) = False"
    unfolding four by (simp add: Ex_less_Suc)
  show ?thesis
    using validate_frame_iff_nonzero_byte [of ?m "[0, 0, 7, 0]" all_channels_zero]
      validate_frame_iff_nonzero_byte [of ?m "[0, 0, 0, 0, 9]" all_channels_zero]
      validate_frame_iff_nonzero_byte [of ?z "[1, 1]" all_channels_zero]
    by (simp add: a b one_byte_per_element_def)
qed

subsection \<open>The timestamp of the image reader\<close>

text \<open>
  C8. \<open>get_frame_timestamp\<close> of the image-stream reader returns zero for every format
  descriptor and every buffer and leaves the state as it was; the buffer is not read:
  the outcome is that of the call with an empty buffer.
\<close>

theorem image_get_frame_timestamp_is_zero:
  "ds5_timestamp_reader_get_frame_timestamp s mode fr = (0, s) \<and>
   ds5_timestamp_reader_get_frame_timestamp s mode fr =
     ds5_timestamp_reader_get_frame_timestamp s mode []"
  by (simp add: ds5_timestamp_reader_get_frame_timestamp_def)

subsection \<open>Reset\<close>

lemma sized_all_channels_zero: "sized all_channels_zero"
  by (simp add: sized_def all_channels_zero_def)

lemma reset_gives_zero:
  assumes "sized s"
  shows "ds5_timestamp_reader_reset s = all_channels_zero"
    and "ds5_hid_timestamp_reader_reset s = all_channels_zero"
  using assms
  by (simp_all add: ds5_timestamp_reader_reset_def ds5_hid_timestamp_reader_reset_def
      pins_def sensors_def reset_sized all_channels_zero_def)

lemma sized_ds5_timestamp_reader_call:
  "sized s \<Longrightarrow> sized (ds5_timestamp_reader_call c s)"
  by (cases c)
    (simp_all add: reset_gives_zero sized_all_channels_zero
      ds5_timestamp_reader_validate_frame_def ds5_timestamp_reader_get_frame_timestamp_def
      ds5_timestamp_reader_get_frame_counter_def sized_increment)

lemma sized_ds5_hid_timestamp_reader_call:
  "sized s \<Longrightarrow> sized (ds5_hid_timestamp_reader_call c s)"
  by (cases c)
    (simp_all add: reset_gives_zero sized_all_channels_zero
      ds5_hid_timestamp_reader_validate_frame_def ds5_hid_timestamp_reader_get_frame_timestamp_def
      ds5_hid_timestamp_reader_get_frame_counter_def sized_increment Let_def split: sum.splits)

lemma sized_fold_calls:
  assumes "\<And>c s. sized s \<Longrightarrow> sized (f c s)"
  shows "sized s \<Longrightarrow> sized (fold f cs s)"
  by (induction cs arbitrary: s) (simp_all add: assms)

lemma sized_after:
  "sized (ds5_timestamp_reader_after cs)" "sized (ds5_hid_timestamp_reader_after cs)"
  unfolding ds5_timestamp_reader_after_def ds5_hid_timestamp_reader_after_def
  by (rule sized_fold_calls, erule sized_ds5_timestamp_reader_call sized_ds5_hid_timestamp_reader_call,
      simp add: ds5_timestamp_reader_value ds5_hid_timestamp_reader_value sized_def)+

lemma first_counter_is_one:
  "i < 2 \<Longrightarrow> fst (increment_counter i all_channels_zero) = 1"
  by (cases i) (simp_all add: increment_counter_def all_channels_zero_def)

text \<open>
  C5. In whatever state a reader, image or inertial, is when \<open>reset()\<close> is called, with
  any values in its four two-element vectors, \<open>reset()\<close> puts \<open>started\<close>, \<open>total\<close>,
  \<open>last_timestamp\<close> and \<open>counter\<close> of both channels back to false and zero, and the next
  \<open>get_frame_counter\<close> call returns 1 for every request, whichever channel it selects.
  Every state a reader reaches from its construction, through any calls and any number
  of counter requests, has vectors of two elements, so the same holds there.
\<close>

theorem reset_restarts_counters:
  assumes "sized s"
  shows "ds5_timestamp_reader_reset s = all_channels_zero \<and>
   fst (ds5_timestamp_reader_get_frame_counter (ds5_timestamp_reader_reset s) mode) = 1 \<and>
   ds5_hid_timestamp_reader_reset s = all_channels_zero \<and>
   fst (ds5_hid_timestamp_reader_get_frame_counter (ds5_hid_timestamp_reader_reset s) mode) = 1 \<and>
   sized (ds5_timestamp_reader_after calls) \<and>
   ds5_timestamp_reader_reset (ds5_timestamp_reader_after calls) = all_channels_zero \<and>
   fst (ds5_timestamp_reader_get_frame_counter
          (ds5_timestamp_reader_reset (ds5_timestamp_reader_after calls)) mode) = 1 \<and>
   sized (ds5_hid_timestamp_reader_after calls) \<and>
   ds5_hid_timestamp_reader_reset (ds5_hid_timestamp_reader_after calls) = all_channels_zero \<and>
   fst (ds5_hid_timestamp_reader_get_frame_counter
          (ds5_hid_timestamp_reader_reset (ds5_hid_timestamp_reader_after calls)) mode) = 1"
  using assms
  by (simp add: reset_gives_zero sized_after ds5_timestamp_reader_get_frame_counter_def
      ds5_hid_timestamp_reader_get_frame_counter_def first_counter_is_one
      pin_index_of_def sensor_index_of_def)

theorem reset_restarts_counters_witness:
  "sized \<lparr>started = [True, True], total = [5, 6], last_timestamp = [7, 8], counter = [9, 10]\<rparr> \<and>
   ds5_timestamp_reader_reset
     \<lparr>started = [True, True], total = [5, 6], last_timestamp = [7, 8], counter = [9, 10]\<rparr> =
     \<lparr>started = [False, False], total = [0, 0], last_timestamp = [0, 0], counter = [0, 0]\<rparr> \<and>
   ds5_hid_timestamp_reader_reset
     \<lparr>started = [True, True], total = [5, 6], last_timestamp = [7, 8], counter = [9, 10]\<rparr> =
     \<lparr>started = [False, False], total = [0, 0], last_timestamp = [0, 0], counter = [0, 0]\<rparr> \<and>
   fst (ds5_timestamp_reader_get_frame_counter
     (ds5_timestamp_reader_reset
        \<lparr>started = [True, True], total = [5, 6], last_timestamp = [7, 8], counter = [9, 10]\<rparr>)
     \<lparr>profile = \<lparr>width = 640, height = 480\<rparr>,
      pf = \<lparr>fourcc = 0x5a313620, get_image_size = one_byte_per_element\<rparr>\<rparr>) = 1"
proof -
  have sz: "sized \<lparr>started = [True, True], total = [5, 6], last_timestamp = [7, 8],
      counter = [9, 10]\<rparr>"
    by (simp add: sized_def)
  show ?thesis
    using sz reset_restarts_counters [OF sz, of
        "\<lparr>profile = \<lparr>width = 640, height = 480\<rparr>,
          pf = \<lparr>fourcc = 0x5a313620, get_image_size = one_byte_per_element\<rparr>\<rparr>" "[]"]
    by (auto simp add: all_channels_zero_def)
qed

subsection \<open>The timestamp of the inertial reader\<close>

lemma byte_or_shift:
  "(ucast (b :: 8 word) :: 64 word) OR push_bit 8 x = of_nat (unat b) + x * 256"
proof -
  have "(ucast b :: 64 word) AND push_bit 8 x = 0"
    by (rule bit_word_eqI) (auto simp: bit_simps dest: bit_imp_le_length)
  then have "(ucast b :: 64 word) + push_bit 8 x = ucast b OR push_bit 8 x"
    by (rule disjunctive_add_eq_or)
  then show ?thesis
    by (simp add: push_bit_eq_mult)
qed

lemma foldr_bytes_value:
  "foldr (\<lambda>b acc. ucast b OR push_bit 8 acc) bs (0 :: 64 word) = of_nat (bytes_value bs)"
  by (induction bs) (simp_all add: byte_or_shift)

lemma bytes_value_sum:
  "bytes_value bs = (\<Sum>i<length bs. unat (bs ! i) * 256 ^ i)"
proof (induction bs)
  case Nil
  show ?case by simp
next
  case (Cons b bs)
  have "(\<Sum>i<Suc (length bs). unat ((b # bs) ! i) * 256 ^ i) =
        unat b + (\<Sum>i<length bs. unat (bs ! i) * 256 ^ i * 256)"
    by (simp add: sum.lessThan_Suc_shift mult_ac del: sum.lessThan_Suc)
  also have "\<dots> = unat b + (\<Sum>i<length bs. unat (bs ! i) * 256 ^ i) * 256"
    by (simp only: sum_distrib_right)
  finally show ?case using Cons.IH by simp
qed

lemma bytes_value_bound: "bytes_value bs < 256 ^ length bs"
proof (induction bs)
  case Nil
  show ?case by simp
next
  case (Cons b bs)
  have "unat b < 256"
    using unsigned_less [of b, where ?'a = nat] by simp
  moreover have "bytes_value bs + 1 \<le> 256 ^ length bs"
    using Cons.IH by simp
  then have "(bytes_value bs + 1) * 256 \<le> 256 ^ length bs * 256"
    by (rule mult_right_mono) simp
  ultimately show ?case by simp
qed

lemma read_uint64_value:
  assumes "off + 8 \<le> length fr"
  shows "read_uint64 fr off = Inr (of_nat (little_endian_at fr off))"
    and "little_endian_at fr off < 2 ^ 64"
proof -
  let ?bs = "take 8 (drop off fr)"
  have len: "length ?bs = 8"
    using assms by simp
  have "off \<le> length fr"
    using assms by simp
  then have nth: "?bs ! i = fr ! (off + i)" if "i < 8" for i
    using that by (simp add: nth_drop)
  have "bytes_value ?bs = (\<Sum>i<8. unat (?bs ! i) * 256 ^ i)"
    using bytes_value_sum [of ?bs] unfolding len .
  also have "\<dots> = (\<Sum>i<8. unat (fr ! (off + i)) * 256 ^ i)"
    by (rule sum.cong) (simp_all only: nth lessThan_iff)
  finally have v: "bytes_value ?bs = little_endian_at fr off"
    by (simp only: little_endian_at_def)
  show "read_uint64 fr off = Inr (of_nat (little_endian_at fr off))"
    using assms by (simp only: read_uint64_def foldr_bytes_value v if_True)
  have "bytes_value ?bs < 256 ^ 8"
    using bytes_value_bound [of ?bs] unfolding len .
  then show "little_endian_at fr off < 2 ^ 64"
    unfolding v by simp
qed


lemma static_cast_double_exact:
  "n < 2 ^ 53 \<Longrightarrow> n < 2 ^ 64 \<Longrightarrow> static_cast_double (of_nat n) = real n"
  by (simp add: static_cast_double_def round_to_double_def unat_of_nat)

lemma example_little_endian:
  "little_endian_at [0, 0, 0, 0, 0, 0, 1, 0, 0, 0, 0, 0, 0x20, 0] 6 = 9007199254740993"
  "little_endian_at [0, 0, 0, 0, 0, 0, 1, 2, 3, 0, 0, 0, 0, 0] 6 = 197121"
proof -
  have eight: "{..<8::nat} = {0, 1, 2, 3, 4, 5, 6, 7}"
    by auto
  show "little_endian_at [0, 0, 0, 0, 0, 0, 1, 0, 0, 0, 0, 0, 0x20, 0] 6 = 9007199254740993"
    "little_endian_at [0, 0, 0, 0, 0, 0, 1, 2, 3, 0, 0, 0, 0, 0] 6 = 197121"
    by (simp_all add: little_endian_at_def eight)
qed


lemma wrapped_element_count:
  "(w * h = (14 :: 32 word)) \<longleftrightarrow> (unat w * unat h) mod 2 ^ 32 = 14"
proof -
  have "(w * h = 14) \<longleftrightarrow> unat (w * h) = unat (14 :: 32 word)"
    by (simp only: word_unat_eq_iff)
  also have "unat (w * h) = (unat w * unat h) mod 2 ^ 32"
    by (simp add: unat_word_ariths)
  also have "unat (14 :: 32 word) = 14"
    by simp
  finally show ?thesis .
qed

text \<open>
  C3, as the code has it. The element count is the product \<open>width * height\<close> of the
  profile computed in unsigned 32-bit arithmetic, that is modulo \<open>2 ^ 32\<close>. When this
  value is not 14, the inertial reader's \<open>get_frame_timestamp\<close> returns 0. When it is 14,
  which a product such as \<open>0x80000007 * 2\<close> is as well, and the payload holds the 14
  bytes, the function returns the unsigned 64-bit integer formed by the bytes at offsets
  6 to 13, least significant first, converted to \<open>double\<close>: that integer itself whenever
  it is below \<open>2 ^ 53\<close>, and otherwise the nearest value a \<open>double\<close> can hold. The state is
  left as it was.
\<close>

theorem hid_get_frame_timestamp_value:
  "((unat (width (profile mode)) * unat (height (profile mode))) mod 2 ^ 32 \<noteq> 14 \<longrightarrow>
      ds5_hid_timestamp_reader_get_frame_timestamp s mode fr = (Inr 0, s)) \<and>
   ((unat (width (profile mode)) * unat (height (profile mode))) mod 2 ^ 32 = 14 \<and>
    14 \<le> length fr \<longrightarrow>
      ds5_hid_timestamp_reader_get_frame_timestamp s mode fr =
        (Inr (static_cast_double (of_nat (little_endian_at fr 6))), s) \<and>
      (little_endian_at fr 6 < 2 ^ 53 \<longrightarrow>
         ds5_hid_timestamp_reader_get_frame_timestamp s mode fr =
           (Inr (real (little_endian_at fr 6)), s)))"
proof -
  have rd: "read_uint64 fr 6 = Inr (of_nat (little_endian_at fr 6))"
    and bd: "little_endian_at fr 6 < 2 ^ 64" if "14 \<le> length fr"
    using that read_uint64_value [of 6 fr] by simp_all
  have ex: "static_cast_double (of_nat (little_endian_at fr 6)) = real (little_endian_at fr 6)"
    if "14 \<le> length fr" and "little_endian_at fr 6 < 2 ^ 53"
    using that(2) bd [OF that(1)] by (rule static_cast_double_exact)
  have cnt: "(width (profile mode) * height (profile mode) = 14) \<longleftrightarrow>
      (unat (width (profile mode)) * unat (height (profile mode))) mod 2 ^ 32 = 14"
    by (rule wrapped_element_count)
  have body: "ds5_hid_timestamp_reader_get_frame_timestamp s mode fr =
      (if (unat (width (profile mode)) * unat (height (profile mode))) mod 2 ^ 32 = 14
       then (case read_uint64 fr 6 of Inl e \<Rightarrow> (Inl e, s) | Inr u \<Rightarrow> (Inr (static_cast_double u), s))
       else (Inr 0, s))"
    by (simp only: ds5_hid_timestamp_reader_get_frame_timestamp_def hid_data_size_def
        timestamp_offset_def Let_def cnt)
  show ?thesis
    unfolding body using rd ex by (simp del: of_nat_sum)
qed

theorem hid_get_frame_timestamp_value_witness:
  "ds5_hid_timestamp_reader_get_frame_timestamp all_channels_zero
     \<lparr>profile = \<lparr>width = 14, height = 1\<rparr>,
      pf = \<lparr>fourcc = 0x4759524F, get_image_size = one_byte_per_element\<rparr>\<rparr>
     [0, 0, 0, 0, 0, 0, 1, 2, 3, 0, 0, 0, 0, 0] = (Inr 197121, all_channels_zero) \<and>
   ds5_hid_timestamp_reader_get_frame_timestamp all_channels_zero
     \<lparr>profile = \<lparr>width = 3, height = 1\<rparr>,
      pf = \<lparr>fourcc = 0x4759524F, get_image_size = one_byte_per_element\<rparr>\<rparr>
     [5, 6, 7] = (Inr 0, all_channels_zero) \<and>
   ds5_hid_timestamp_reader_get_frame_timestamp all_channels_zero
     \<lparr>profile = \<lparr>width = 0x80000007, height = 2\<rparr>,
      pf = \<lparr>fourcc = 0x4759524F, get_image_size = one_byte_per_element\<rparr>\<rparr>
     [0, 0, 0, 0, 0, 0, 1, 2, 3, 0, 0, 0, 0, 0] = (Inr 197121, all_channels_zero)"
  using
    hid_get_frame_timestamp_value [of
      "\<lparr>profile = \<lparr>width = 14, height = 1\<rparr>,
        pf = \<lparr>fourcc = 0x4759524F, get_image_size = one_byte_per_element\<rparr>\<rparr>"
      all_channels_zero "[0, 0, 0, 0, 0, 0, 1, 2, 3, 0, 0, 0, 0, 0]"]
    hid_get_frame_timestamp_value [of
      "\<lparr>profile = \<lparr>width = 3, height = 1\<rparr>,
        pf = \<lparr>fourcc = 0x4759524F, get_image_size = one_byte_per_element\<rparr>\<rparr>"
      all_channels_zero "[5, 6, 7]"]
    hid_get_frame_timestamp_value [of
      "\<lparr>profile = \<lparr>width = 0x80000007, height = 2\<rparr>,
        pf = \<lparr>fourcc = 0x4759524F, get_image_size = one_byte_per_element\<rparr>\<rparr>"
      all_channels_zero "[0, 0, 0, 0, 0, 0, 1, 2, 3, 0, 0, 0, 0, 0]"]
  by (auto simp add: example_little_endian)

text \<open>
  C3, as stated, fails in two places. The first payload below has 14 elements and its
  bytes at offsets 6 to 13 form the integer \<open>2 ^ 53 + 1 = 9007199254740993\<close>; the function
  returns \<open>9007199254740992\<close>, because the result is a \<open>double\<close>. The second profile has
  \<open>2147483655 * 2 = 4294967310\<close> elements, not 14, but the 32-bit product is 14 and the
  function returns the integer read from the payload, not 0.
\<close>

theorem hid_get_frame_timestamp_rounds:
  "width (profile \<lparr>profile = \<lparr>width = 14, height = 1\<rparr>,
                  pf = \<lparr>fourcc = 0x4759524F, get_image_size = one_byte_per_element\<rparr>\<rparr>) *
   height (profile \<lparr>profile = \<lparr>width = 14, height = 1\<rparr>,
                  pf = \<lparr>fourcc = 0x4759524F, get_image_size = one_byte_per_element\<rparr>\<rparr>) = 14 \<and>
   length [0, 0, 0, 0, 0, 0, 1, 0, 0, 0, 0, 0, 0x20, 0 :: 8 word] = 14 \<and>
   little_endian_at [0, 0, 0, 0, 0, 0, 1, 0, 0, 0, 0, 0, 0x20, 0] 6 = 9007199254740993 \<and>
   fst (ds5_hid_timestamp_reader_get_frame_timestamp all_channels_zero
     \<lparr>profile = \<lparr>width = 14, height = 1\<rparr>,
      pf = \<lparr>fourcc = 0x4759524F, get_image_size = one_byte_per_element\<rparr>\<rparr>
     [0, 0, 0, 0, 0, 0, 1, 0, 0, 0, 0, 0, 0x20, 0]) = Inr 9007199254740992 \<and>
   fst (ds5_hid_timestamp_reader_get_frame_timestamp all_channels_zero
     \<lparr>profile = \<lparr>width = 14, height = 1\<rparr>,
      pf = \<lparr>fourcc = 0x4759524F, get_image_size = one_byte_per_element\<rparr>\<rparr>
     [0, 0, 0, 0, 0, 0, 1, 0, 0, 0, 0, 0, 0x20, 0]) \<noteq> Inr 9007199254740993 \<and>
   unat (width (profile \<lparr>profile = \<lparr>width = 0x80000007, height = 2\<rparr>,
                  pf = \<lparr>fourcc = 0x4759524F, get_image_size = one_byte_per_element\<rparr>\<rparr>)) *
   unat (height (profile \<lparr>profile = \<lparr>width = 0x80000007, height = 2\<rparr>,
                  pf = \<lparr>fourcc = 0x4759524F, get_image_size = one_byte_per_element\<rparr>\<rparr>)) =
     4294967310 \<and>
   fst (ds5_hid_timestamp_reader_get_frame_timestamp all_channels_zero
     \<lparr>profile = \<lparr>width = 0x80000007, height = 2\<rparr>,
      pf = \<lparr>fourcc = 0x4759524F, get_image_size = one_byte_per_element\<rparr>\<rparr>
     [0, 0, 0, 0, 0, 0, 1, 2, 3, 0, 0, 0, 0, 0]) = Inr 197121 \<and>
   fst (ds5_hid_timestamp_reader_get_frame_timestamp all_channels_zero
     \<lparr>profile = \<lparr>width = 0x80000007, height = 2\<rparr>,
      pf = \<lparr>fourcc = 0x4759524F, get_image_size = one_byte_per_element\<rparr>\<rparr>
     [0, 0, 0, 0, 0, 0, 1, 2, 3, 0, 0, 0, 0, 0]) \<noteq> Inr 0"
proof -
  have r: "read_uint64 [0, 0, 0, 0, 0, 0, 1, 0, 0, 0, 0, 0, 0x20, 0] 6 = Inr 9007199254740993"
    by (simp add: read_uint64_def)
  have c: "static_cast_double 9007199254740993 = 9007199254740992"
    by (simp add: static_cast_double_def round_to_double_def bit_length.simps Let_def)
  have r': "read_uint64 [0, 0, 0, 0, 0, 0, 1, 2, 3, 0, 0, 0, 0, 0] 6 = Inr 197121"
    by (simp add: read_uint64_def)
  have c': "static_cast_double 197121 = 197121"
    by (simp add: static_cast_double_def round_to_double_def)
  show ?thesis
    by (simp add: example_little_endian ds5_hid_timestamp_reader_get_frame_timestamp_def
        hid_data_size_def timestamp_offset_def r c r' c')
qed

subsection \<open>The number of sub-devices\<close>

text \<open>
  C2. For a device whose first image endpoint has identifier \<open>pid\<close>,
  \<open>get_subdevice_count\<close> returns 1 when \<open>pid\<close> is one of \<open>RS400P_PID\<close>, \<open>RS410A_PID\<close>,
  \<open>RS420R_PID\<close>, \<open>RS430C_PID\<close>, returns 3 when it is \<open>RS450T_PID\<close>, and for every other
  value throws \<open>not_implemented_exception\<close> with a message that ends with the identifier
  in decimal; no identifier gets a default count. The five identifiers are distinct, as
  the labels of a \<open>switch\<close> must be.
\<close>

theorem get_subdevice_count_by_pid:
  assumes "distinct [RS400P_PID ds, RS410A_PID ds, RS420R_PID ds, RS430C_PID ds, RS450T_PID ds]"
    and "depth info = d # rest"
  shows "(pid d \<in> {RS400P_PID ds, RS410A_PID ds, RS420R_PID ds, RS430C_PID ds} \<longrightarrow>
            get_subdevice_count ds info = Inr 1) \<and>
         (pid d = RS450T_PID ds \<longrightarrow> get_subdevice_count ds info = Inr 3) \<and>
         (pid d \<notin> {RS400P_PID ds, RS410A_PID ds, RS420R_PID ds, RS430C_PID ds, RS450T_PID ds} \<longrightarrow>
            get_subdevice_count ds info =
              Inl (not_implemented_exception
                (''get_subdevice_count is not implemented for DS5 device of type '' @
                 decimal (unat (pid d)))))"
  using assms by (auto simp add: get_subdevice_count_def Let_def)

theorem get_subdevice_count_by_pid_witness:
  "distinct [0x0AD1, 0x0AD2, 0x0AD3, 0x0AD4, 0x0AD5 :: 16 word] \<and>
   get_subdevice_count
     \<lparr>RS400P_PID = 0x0AD1, RS410A_PID = 0x0AD2, RS420R_PID = 0x0AD3, RS430C_PID = 0x0AD4,
      RS450T_PID = 0x0AD5 :: 16 word\<rparr> \<lparr>depth = [\<lparr>pid = 0x0AD3\<rparr>]\<rparr> = Inr 1 \<and>
   get_subdevice_count
     \<lparr>RS400P_PID = 0x0AD1, RS410A_PID = 0x0AD2, RS420R_PID = 0x0AD3, RS430C_PID = 0x0AD4,
      RS450T_PID = 0x0AD5 :: 16 word\<rparr> \<lparr>depth = [\<lparr>pid = 0x0AD5\<rparr>]\<rparr> = Inr 3 \<and>
   get_subdevice_count
     \<lparr>RS400P_PID = 0x0AD1, RS410A_PID = 0x0AD2, RS420R_PID = 0x0AD3, RS430C_PID = 0x0AD4,
      RS450T_PID = 0x0AD5 :: 16 word\<rparr> \<lparr>depth = [\<lparr>pid = 0\<rparr>]\<rparr> =
     Inl (not_implemented_exception
       ''get_subdevice_count is not implemented for DS5 device of type 0'')"
proof -
  let ?ds = "\<lparr>RS400P_PID = 0x0AD1, RS410A_PID = 0x0AD2, RS420R_PID = 0x0AD3, RS430C_PID = 0x0AD4,
      RS450T_PID = 0x0AD5 :: 16 word\<rparr>"
  have dist: "distinct [RS400P_PID ?ds, RS410A_PID ?ds, RS420R_PID ?ds, RS430C_PID ?ds, RS450T_PID ?ds]"
    by simp
  have zero: "decimal 0 = ''0''"
    by (simp add: decimal.simps)
  show ?thesis
    using get_subdevice_count_by_pid [OF dist, of "\<lparr>depth = [\<lparr>pid = 0x0AD3\<rparr>]\<rparr>" "\<lparr>pid = 0x0AD3\<rparr>" "[]"]
      get_subdevice_count_by_pid [OF dist, of "\<lparr>depth = [\<lparr>pid = 0x0AD5\<rparr>]\<rparr>" "\<lparr>pid = 0x0AD5\<rparr>" "[]"]
      get_subdevice_count_by_pid [OF dist, of "\<lparr>depth = [\<lparr>pid = 0\<rparr>]\<rparr>" "\<lparr>pid = 0\<rparr>" "[]"]
    by (simp add: zero)
qed

text \<open>
  C9. \<open>get_subdevice_count\<close> looks at the first image endpoint only: on an empty endpoint
  list, \<open>front()\<close> is undefined; on a non-empty list the result is the one for the list
  cut down to its first element, whatever identifiers the other endpoints carry, and is
  never the undefined outcome.
\<close>

theorem get_subdevice_count_reads_front:
  "get_subdevice_count ds (info\<lparr>depth := []\<rparr>) =
     Inl (undefined_behaviour ''front() of an empty vector'') \<and>
   get_subdevice_count ds (info\<lparr>depth := d # rest\<rparr>) =
     get_subdevice_count ds (info\<lparr>depth := [d]\<rparr>) \<and>
   get_subdevice_count ds (info\<lparr>depth := d # rest\<rparr>) \<noteq> Inl (undefined_behaviour msg)"
  by (simp add: get_subdevice_count_def Let_def)

subsection \<open>The emitter option\<close>

text \<open>
  C7. \<open>get_value_description\<close> returns "Off" for 0, "On" for 1 and "Auto" for 2, and
  throws \<open>invalid_value_exception\<close> for every other integer \<open>k\<close> in the range of \<open>int\<close>,
  such as 3 or -1. The function has no state to read or change: its result is a
  function of the input alone.
\<close>

theorem emitter_description_of_integer:
  assumes "- (2 ^ 31) \<le> k" and "k < 2 ^ 31"
  shows "get_value_description (of_int 0) = Inr ''Off'' \<and>
         get_value_description (of_int 1) = Inr ''On'' \<and>
         get_value_description (of_int 2) = Inr ''Auto'' \<and>
         (k \<notin> {0, 1, 2} \<longrightarrow>
            get_value_description (of_int k) = Inl (invalid_value_exception ''value not found''))"
proof -
  have lo: "- (2 ^ 31) - 1 < (of_int k :: real)"
  proof -
    have "(- (2 ^ 31) - 1 :: real) < - (2 ^ 31)" by simp
    also have "\<dots> = of_int (- (2 ^ 31))" by simp
    also have "\<dots> \<le> of_int k" using assms(1) by (simp only: of_int_le_iff)
    finally show ?thesis .
  qed
  have hi: "(of_int k :: real) < 2 ^ 31"
  proof -
    have "(of_int k :: real) < of_int (2 ^ 31)" using assms(2) by (simp only: of_int_less_iff)
    then show ?thesis by simp
  qed
  have "static_cast_int (of_int k) = Inr k"
    using lo hi by (simp add: static_cast_int_def)
  moreover have "static_cast_int 0 = Inr 0" "static_cast_int 1 = Inr 1" "static_cast_int 2 = Inr 2"
    by (simp_all add: static_cast_int_def)
  ultimately show ?thesis
    by (simp add: get_value_description_def)
qed

theorem emitter_description_of_integer_witness:
  "get_value_description 3 = Inl (invalid_value_exception ''value not found'') \<and>
   get_value_description (- 1) = Inl (invalid_value_exception ''value not found'') \<and>
   get_value_description 2 = Inr ''Auto''"
  using emitter_description_of_integer [of 3] emitter_description_of_integer [of "- 1"]
  by simp


lemma static_cast_int_cases:
  "static_cast_int v = Inr n \<longleftrightarrow>
     - (2 ^ 31) - 1 < v \<and> v < 2 ^ 31 \<and> n = (if 0 \<le> v then \<lfloor>v\<rfloor> else \<lceil>v\<rceil>)"
  by (auto simp add: static_cast_int_def)

lemma truncation_window:
  fixes v :: real
  shows "0 \<le> v \<Longrightarrow> v < 1 \<Longrightarrow> \<lfloor>v\<rfloor> = 0"
    and "1 \<le> v \<Longrightarrow> v < 2 \<Longrightarrow> \<lfloor>v\<rfloor> = 1"
    and "2 \<le> v \<Longrightarrow> v < 3 \<Longrightarrow> \<lfloor>v\<rfloor> = 2"
    and "- 1 < v \<Longrightarrow> v < 0 \<Longrightarrow> \<lceil>v\<rceil> = 0"
  by linarith+

text \<open>
  C10. The input is a floating-point number and is truncated toward zero before the
  lookup. Every \<open>v\<close> with \<open>0 \<le> v < 3\<close>, an integer or not, gets the description of its
  integer part, and so does every \<open>v\<close> between -1 and 0, whose integer part is 0.
  \<open>invalid_value_exception\<close> is thrown exactly when the truncated value exists and is
  not 0, 1 or 2, that is when \<open>v \<le> -1\<close> or \<open>3 \<le> v\<close> within the range of \<open>int\<close>.
\<close>

theorem emitter_description_truncates:
  "(0 \<le> v \<and> v < 3 \<longrightarrow>
      get_value_description v = Inr (if v < 1 then ''Off'' else if v < 2 then ''On'' else ''Auto'')) \<and>
   (- 1 < v \<and> v < 0 \<longrightarrow> get_value_description v = Inr ''Off'') \<and>
   (get_value_description v = Inl (invalid_value_exception ''value not found'') \<longleftrightarrow>
      (\<exists>n. static_cast_int v = Inr n \<and> n \<notin> {0, 1, 2})) \<and>
   (get_value_description v = Inl (invalid_value_exception ''value not found'') \<longleftrightarrow>
      - (2 ^ 31) - 1 < v \<and> v < 2 ^ 31 \<and> (v \<le> - 1 \<or> 3 \<le> v))"
proof -
  have a: "get_value_description v = Inr ''Off''" if "0 \<le> v" "v < 1"
    using that truncation_window(1) [of v] by (simp add: get_value_description_def static_cast_int_def)
  have b: "get_value_description v = Inr ''On''" if "1 \<le> v" "v < 2"
    using that truncation_window(2) [of v] by (simp add: get_value_description_def static_cast_int_def)
  have c: "get_value_description v = Inr ''Auto''" if "2 \<le> v" "v < 3"
    using that truncation_window(3) [of v] by (simp add: get_value_description_def static_cast_int_def)
  have d: "get_value_description v = Inr ''Off''" if "- 1 < v" "v < 0"
    using that truncation_window(4) [of v] by (simp add: get_value_description_def static_cast_int_def)
  have e: "get_value_description v = Inl (invalid_value_exception ''value not found'') \<longleftrightarrow>
      (\<exists>n. static_cast_int v = Inr n \<and> n \<notin> {0, 1, 2})"
  proof -
    have "static_cast_int v \<noteq> Inl (invalid_value_exception ''value not found'')"
      by (simp add: static_cast_int_def)
    then show ?thesis
      by (cases "static_cast_int v") (auto simp add: get_value_description_def)
  qed
  have f: "(\<exists>n. static_cast_int v = Inr n \<and> n \<notin> {0, 1, 2}) \<longleftrightarrow>
      - (2 ^ 31) - 1 < v \<and> v < 2 ^ 31 \<and> (v \<le> - 1 \<or> 3 \<le> v)"
  proof (cases "0 \<le> v")
    case True
    have "0 \<le> \<lfloor>v\<rfloor>" using True by simp
    then have "(\<lfloor>v\<rfloor> \<noteq> 0 \<and> \<lfloor>v\<rfloor> \<noteq> 1 \<and> \<lfloor>v\<rfloor> \<noteq> 2) = (3 \<le> \<lfloor>v\<rfloor>)"
      by arith
    also have "\<dots> = (3 \<le> v)"
      by linarith
    finally have fl: "(\<lfloor>v\<rfloor> \<noteq> 0 \<and> \<lfloor>v\<rfloor> \<noteq> 1 \<and> \<lfloor>v\<rfloor> \<noteq> 2) = (3 \<le> v)" .
    have "\<not> v \<le> - 1" using True by simp
    then show ?thesis using True by (simp add: static_cast_int_cases fl)
  next
    case False
    have "\<lceil>v\<rceil> \<le> 0" using False by (simp add: ceiling_le_iff)
    then have "(\<lceil>v\<rceil> \<noteq> 0 \<and> \<lceil>v\<rceil> \<noteq> 1 \<and> \<lceil>v\<rceil> \<noteq> 2) = (\<lceil>v\<rceil> \<le> - 1)"
      by arith
    also have "\<dots> = (v \<le> - 1)"
      by linarith
    finally have cl: "(\<lceil>v\<rceil> \<noteq> 0 \<and> \<lceil>v\<rceil> \<noteq> 1 \<and> \<lceil>v\<rceil> \<noteq> 2) = (v \<le> - 1)" .
    have "\<not> 3 \<le> v" using False by simp
    then show ?thesis using False by (simp add: static_cast_int_cases cl)
  qed
  show ?thesis
    using a b c d e f by auto
qed

theorem emitter_description_truncates_witness:
  "get_value_description 2.9 = Inr ''Auto'' \<and>
   get_value_description 0.5 = Inr ''Off'' \<and>
   get_value_description (- 0.5) = Inr ''Off'' \<and>
   get_value_description 3.5 = Inl (invalid_value_exception ''value not found'')"
  using emitter_description_truncates [of "2.9"] emitter_description_truncates [of "0.5"]
    emitter_description_truncates [of "- 0.5"] emitter_description_truncates [of "3.5"]
  by simp

subsection \<open>The raw calibration table\<close>

text \<open>
  C6. On a device that has not fetched the table yet, when a first call of
  \<open>get_raw_calibration_table\<close> returns bytes, a second call, for any table, returns the
  same bytes and leaves the device as it was: the two calls together have sent exactly
  one request over the hardware monitor, the one of the first call. Since the device is
  unchanged by the second call, the same holds for every later call.
\<close>

theorem calibration_table_fetched_once:
  assumes "coefficients_table_raw cam = None"
    and "get_raw_calibration_table reply cam t1 = (response bytes, cam1)"
  shows "get_raw_calibration_table reply cam1 t2 = (response bytes, cam1) \<and>
         sent (hw_monitor cam1) = sent (hw_monitor cam) @ [t1] \<and>
         sent (hw_monitor (snd (get_raw_calibration_table reply cam1 t2))) =
           sent (hw_monitor cam) @ [t1] \<and>
         coefficients_table_raw cam1 = Some bytes"
  using assms
  by (auto simp add: get_raw_calibration_table_def Let_def split: transport_result.splits)

theorem calibration_table_fetched_once_witness:
  "get_raw_calibration_table (\<lambda>earlier t. (response [t, 7 :: 8 word] :: unit transport_result))
     new_ds5_camera 1 =
     (response [1, 7], \<lparr>hw_monitor = \<lparr>sent = [1]\<rparr>, coefficients_table_raw = Some [1, 7]\<rparr>) \<and>
   get_raw_calibration_table (\<lambda>earlier t. (response [t, 7 :: 8 word] :: unit transport_result))
     \<lparr>hw_monitor = \<lparr>sent = [1]\<rparr>, coefficients_table_raw = Some [1, 7]\<rparr> 2 =
     (response [1, 7], \<lparr>hw_monitor = \<lparr>sent = [1]\<rparr>, coefficients_table_raw = Some [1, 7]\<rparr>)"
proof -
  have n: "coefficients_table_raw (new_ds5_camera :: 8 word ds5_camera) = None"
    by (simp add: new_ds5_camera_def)
  have f: "get_raw_calibration_table (\<lambda>earlier t. (response [t, 7 :: 8 word] :: unit transport_result))
      new_ds5_camera 1 =
     (response [1, 7], \<lparr>hw_monitor = \<lparr>sent = [1]\<rparr>, coefficients_table_raw = Some [1, 7]\<rparr>)"
    by (simp add: get_raw_calibration_table_def new_ds5_camera_def)
  show ?thesis
    using calibration_table_fetched_once [OF n f, of 2] f by simp
qed


end
